theory Spec2Isabelle
  imports Main "HOL-Library.Char_ord" "HOL-Library.List_Lexorder" "HOL-Library.Product_Lexorder"
begin

section \<open>JavaScript strings and numbers\<close>

text \<open>
  A JavaScript string is modelled as the list of its code units, restricted to the code
  units below 256 (\<^typ>\<open>char\<close>). Text comparison in the database is bytewise
  (the BINARY collation), which is the lexicographic order on \<^typ>\<open>string\<close>.
  A JavaScript number that can arise here is \<open>NaN\<close>, an infinity, or a double with an
  integer value, kept as that integer. An arithmetic result is the exact result rounded to
  the nearest double (\<open>to_number\<close>).
\<close>

datatype jsnum = NaN | Num int | PosInf | NegInf

text \<open>The number of binary digits of a positive integer.\<close>

function bit_length :: "int \<Rightarrow> nat" where
  "bit_length n = (if n \<le> 0 then 0 else Suc (bit_length (n div 2)))"
  by pat_completeness auto
termination
  by (relation "measure nat") auto

declare bit_length.simps [simp del]

text \<open>The Number value of a mathematical integer: the nearest double, ties to the even
  significand; the infinity of its sign when the rounded magnitude reaches \<open>2^1024\<close>.
  Integers of magnitude below \<open>2^53\<close> are exact.\<close>

definition to_number :: "int \<Rightarrow> jsnum" where
  "to_number x =
     (let a = abs x in
      if a < 9007199254740992 then Num x
      else
        let ulp = 2 ^ (bit_length a - 53);
            q = a div ulp;
            r = a mod ulp;
            m = (if 2 * r < ulp \<or> (2 * r = ulp \<and> even q) then q else q + 1) * ulp
        in if 1024 < bit_length m then (if x < 0 then NegInf else PosInf)
           else Num (if x < 0 then - m else m))"



text \<open>White space as removed by \<open>String.prototype.trim\<close> and skipped by \<open>parseInt\<close>
  (tab, line feed, vertical tab, form feed, carriage return, space, no-break space).\<close>

definition is_js_space :: "char \<Rightarrow> bool" where
  "is_js_space c = (c \<in> set [CHR 0x09, CHR 0x0A, CHR 0x0B, CHR 0x0C, CHR 0x0D, CHR 0x20, CHR 0xA0])"

definition trim :: "string \<Rightarrow> string" where
  "trim s = rev (dropWhile is_js_space (rev (dropWhile is_js_space s)))"

definition toLowerCase_char :: "char \<Rightarrow> char" where
  "toLowerCase_char c =
     (let n = (of_char c :: nat)
      in if (65 \<le> n \<and> n \<le> 90) \<or> (192 \<le> n \<and> n \<le> 222 \<and> n \<noteq> 215)
         then char_of (n + 32) else c)"

definition toLowerCase :: "string \<Rightarrow> string" where
  "toLowerCase s = map toLowerCase_char s"

text \<open>\<open>s.split(sep)\<close> for a one-character separator: always at least one part.\<close>

fun split_char :: "char \<Rightarrow> string \<Rightarrow> string list" where
  "split_char sep [] = [[]]"
| "split_char sep (c # cs) =
     (if c = sep then [] # split_char sep cs
      else (case split_char sep cs of
              [] \<Rightarrow> [[c]]
            | p # ps \<Rightarrow> (c # p) # ps))"

text \<open>\<open>arr[i]\<close>: \<open>undefined\<close> (here \<open>None\<close>) beyond the end.\<close>

definition nth_opt :: "'a list \<Rightarrow> nat \<Rightarrow> 'a option" where
  "nth_opt xs i = (if i < length xs then Some (xs ! i) else None)"

text \<open>\<open>x || d\<close> for a string-or-undefined \<open>x\<close>: the empty string is falsy.\<close>

definition js_or :: "string option \<Rightarrow> string \<Rightarrow> string" where
  "js_or x d = (case x of None \<Rightarrow> d | Some s \<Rightarrow> if s = [] then d else s)"

text \<open>\<open>x ? x.toString() : null\<close> for a query parameter.\<close>

definition truthy_or_null :: "string option \<Rightarrow> string option" where
  "truthy_or_null x = (case x of None \<Rightarrow> None | Some s \<Rightarrow> if s = [] then None else Some s)"

definition is_digit :: "char \<Rightarrow> bool" where
  "is_digit c = (CHR ''0'' \<le> c \<and> c \<le> CHR ''9'')"

definition digit_val :: "char \<Rightarrow> int" where
  "digit_val c = int (of_char c) - 48"

fun dec_val :: "int \<Rightarrow> string \<Rightarrow> int" where
  "dec_val acc [] = acc"
| "dec_val acc (c # cs) = dec_val (10 * acc + digit_val c) cs"

text \<open>\<open>parseInt(s, 10)\<close>: leading white space, an optional sign, then the longest
  prefix of decimal digits; \<open>NaN\<close> when there is no digit, otherwise the Number value
  of the integer the digits denote (rounded beyond \<open>2^53\<close>, infinite from 309 digits
  on).\<close>

definition parseInt :: "string \<Rightarrow> jsnum" where
  "parseInt s =
     (let s1 = dropWhile is_js_space s;
          neg = (case s1 of [] \<Rightarrow> False | c # _ \<Rightarrow> c = CHR ''-'');
          s2 = (case s1 of [] \<Rightarrow> [] | c # r \<Rightarrow> if c = CHR ''-'' \<or> c = CHR ''+'' then r else s1);
          ds = takeWhile is_digit s2
      in if ds = [] then NaN
         else to_number (if neg then - dec_val 0 ds else dec_val 0 ds))"

text \<open>\<open>Math.max\<close> and \<open>Math.min\<close> of two numbers: \<open>NaN\<close> when either is.\<close>

definition Math_max :: "jsnum \<Rightarrow> jsnum \<Rightarrow> jsnum" where
  "Math_max a b =
     (case (a, b) of
        (NaN, _) \<Rightarrow> NaN
      | (_, NaN) \<Rightarrow> NaN
      | (PosInf, _) \<Rightarrow> PosInf
      | (_, PosInf) \<Rightarrow> PosInf
      | (NegInf, y) \<Rightarrow> y
      | (x, NegInf) \<Rightarrow> x
      | (Num x, Num y) \<Rightarrow> Num (max x y))"

definition Math_min :: "jsnum \<Rightarrow> jsnum \<Rightarrow> jsnum" where
  "Math_min a b =
     (case (a, b) of
        (NaN, _) \<Rightarrow> NaN
      | (_, NaN) \<Rightarrow> NaN
      | (NegInf, _) \<Rightarrow> NegInf
      | (_, NegInf) \<Rightarrow> NegInf
      | (PosInf, y) \<Rightarrow> y
      | (x, PosInf) \<Rightarrow> x
      | (Num x, Num y) \<Rightarrow> Num (min x y))"

text \<open>\<open>Number.isInteger\<close> on a value that is \<open>null\<close> or a number: true for the doubles
  with an integer value, false for \<open>null\<close>, \<open>NaN\<close> and the infinities.\<close>

definition Number_isInteger :: "jsnum option \<Rightarrow> bool" where
  "Number_isInteger v = (case v of Some (Num _) \<Rightarrow> True | _ \<Rightarrow> False)"

section \<open>The count cache\<close>

record cache_entry =
  cache_value :: int
  expiresAt :: int

type_synonym count_cache = "string \<rightharpoonup> cache_entry"

definition COUNT_CACHE_TTL_MS :: int where
  "COUNT_CACHE_TTL_MS = 30000"

text \<open>The clock \<open>Date.now()\<close> is an explicit argument \<open>now\<close>; the module-level map is
  passed in and returned.\<close>

definition getCountCache :: "string \<Rightarrow> int \<Rightarrow> count_cache \<Rightarrow> int option \<times> count_cache" where
  "getCountCache key now countCache =
     (case countCache key of
        None \<Rightarrow> (None, countCache)
      | Some hit \<Rightarrow>
          if expiresAt hit < now then (None, countCache(key := None))
          else (Some (cache_value hit), countCache))"

definition setCountCache :: "string \<Rightarrow> int \<Rightarrow> int \<Rightarrow> count_cache \<Rightarrow> count_cache" where
  "setCountCache key v now countCache =
     countCache(key \<mapsto> \<lparr>cache_value = v, expiresAt = now + COUNT_CACHE_TTL_MS\<rparr>)"

text \<open>A run of lookups, each at its own time, threading the map.\<close>

fun get_all :: "(string \<times> int) list \<Rightarrow> count_cache \<Rightarrow> (int option) list \<times> count_cache" where
  "get_all [] c = ([], c)"
| "get_all ((k, t) # rest) c =
     (let (r, c1) = getCountCache k t c; (rs, c2) = get_all rest c1 in (r # rs, c2))"

section \<open>Sort parsing\<close>

record sort_spec =
  sort_field :: string
  sort_dir :: string

definition allowed :: "string list" where
  "allowed = [''id'', ''name'', ''email'', ''status'', ''createdAt'']"

definition parseSort :: "string \<Rightarrow> sort_spec" where
  "parseSort sortStr =
     (let parts = split_char (CHR '':'') (js_or (Some sortStr) '''');
          fieldRaw = nth_opt parts 0;
          dirRaw = nth_opt parts 1;
          field = js_or fieldRaw ''createdAt'';
          dir = (if toLowerCase (js_or dirRaw ''desc'') = ''asc'' then ''ASC'' else ''DESC'')
      in \<lparr>sort_field = (if field \<in> set allowed then field else ''createdAt''),
          sort_dir = dir\<rparr>)"

text \<open>The specification's reading of a sort string \<open><field>:<direction>\<close>: the field
  part is the text before the first colon, the direction part the text between the first
  and the second colon, absent when there is no colon.\<close>

definition spec_field_part :: "string \<Rightarrow> string" where
  "spec_field_part s = takeWhile (\<lambda>c. c \<noteq> CHR '':'') s"

definition spec_dir_part :: "string \<Rightarrow> string option" where
  "spec_dir_part s =
     (if CHR '':'' \<in> set s
      then Some (takeWhile (\<lambda>c. c \<noteq> CHR '':'') (tl (dropWhile (\<lambda>c. c \<noteq> CHR '':'') s)))
      else None)"

text \<open>The spellings that equal \<open>asc\<close> up to letter case.\<close>

definition asc_spellings :: "string list" where
  "asc_spellings = [''asc'', ''asC'', ''aSc'', ''aSC'', ''Asc'', ''AsC'', ''ASc'', ''ASC'']"

section \<open>The users table and the statements run on it\<close>

text \<open>
  The table \<open>users\<close> (columns \<open>id INTEGER PRIMARY KEY\<close>, the others \<open>TEXT NOT NULL\<close>)
  is a list of rows in storage order. The database engine is not part of the repository:
  what a statement returns is modelled from the SQL the handlers write. A statement is
  kept with its text and with what the engine reads off the text: the fragments of the
  \<open>WHERE\<close> clause, the \<open>ORDER BY\<close> terms and whether there is an \<open>OFFSET\<close>.
\<close>

record UserRow =
  r_id :: int
  r_name :: string
  r_email :: string
  r_status :: string
  r_createdAt :: string

text \<open>The named parameters bound to a statement; \<open>None\<close> is a key that is not in the
  object.\<close>

record sql_params =
  p_status :: "string option"
  p_q :: "string option"
  p_cursorCreatedAt :: "string option"
  p_cursorId :: "int option"
  p_limit :: "jsnum option"
  p_offset :: "jsnum option"

definition no_params :: sql_params where
  "no_params = \<lparr>p_status = None, p_q = None, p_cursorCreatedAt = None, p_cursorId = None,
                 p_limit = None, p_offset = None\<rparr>"

text \<open>The three fragments the handlers push on \<open>where\<close>.\<close>

datatype frag = StatusEq | NameOrEmailLike | CursorBound

fun frag_sql :: "frag \<Rightarrow> string" where
  "frag_sql StatusEq = ''status = @status''"
| "frag_sql NameOrEmailLike = ''(name LIKE @q OR email LIKE @q)''"
| "frag_sql CursorBound =
     ''\<newline>      (\<newline>        createdAt < @cursorCreatedAt\<newline>        OR (createdAt = @cursorCreatedAt AND id < @cursorId)\<newline>      )\<newline>    ''"

text \<open>\<open>LIKE\<close>: \<open>%\<close> matches any run of characters, \<open>_\<close> any one character, and
  ASCII letters match in either case.\<close>

definition upper_ascii :: "char \<Rightarrow> char" where
  "upper_ascii c =
     (let n = (of_char c :: nat) in if 97 \<le> n \<and> n \<le> 122 then char_of (n - 32) else c)"

fun sql_like :: "string \<Rightarrow> string \<Rightarrow> bool" where
  "sql_like [] s = (s = [])"
| "sql_like (p # ps) [] = (p = CHR ''%'' \<and> sql_like ps [])"
| "sql_like (p # ps) (c # cs) =
     (if p = CHR ''%'' then sql_like ps (c # cs) \<or> sql_like (p # ps) cs
      else (p = CHR ''_'' \<or> upper_ascii p = upper_ascii c) \<and> sql_like ps cs)"

fun frag_bound :: "sql_params \<Rightarrow> frag \<Rightarrow> bool" where
  "frag_bound ps StatusEq = (p_status ps \<noteq> None)"
| "frag_bound ps NameOrEmailLike = (p_q ps \<noteq> None)"
| "frag_bound ps CursorBound = (p_cursorCreatedAt ps \<noteq> None \<and> p_cursorId ps \<noteq> None)"

fun frag_holds :: "sql_params \<Rightarrow> frag \<Rightarrow> UserRow \<Rightarrow> bool" where
  "frag_holds ps StatusEq r =
     (case p_status ps of None \<Rightarrow> False | Some s \<Rightarrow> r_status r = s)"
| "frag_holds ps NameOrEmailLike r =
     (case p_q ps of None \<Rightarrow> False | Some q \<Rightarrow> sql_like q (r_name r) \<or> sql_like q (r_email r))"
| "frag_holds ps CursorBound r =
     (case (p_cursorCreatedAt ps, p_cursorId ps) of
        (Some c, Some i) \<Rightarrow> r_createdAt r < c \<or> (r_createdAt r = c \<and> r_id r < i)
      | _ \<Rightarrow> False)"

text \<open>The fragments are joined by \<open>AND\<close>.\<close>

definition where_holds :: "sql_params \<Rightarrow> frag list \<Rightarrow> UserRow \<Rightarrow> bool" where
  "where_holds ps frags r = list_all (\<lambda>f. frag_holds ps f r) frags"

text \<open>\<open>ORDER BY\<close>: a list of (column, direction) terms, compared term by term.\<close>

definition columns :: "string list" where
  "columns = [''id'', ''name'', ''email'', ''status'', ''createdAt'']"

definition col_lt :: "string \<Rightarrow> UserRow \<Rightarrow> UserRow \<Rightarrow> bool" where
  "col_lt f a b =
     (if f = ''id'' then r_id a < r_id b
      else if f = ''name'' then r_name a < r_name b
      else if f = ''email'' then r_email a < r_email b
      else if f = ''status'' then r_status a < r_status b
      else r_createdAt a < r_createdAt b)"

fun row_before :: "(string \<times> string) list \<Rightarrow> UserRow \<Rightarrow> UserRow \<Rightarrow> bool" where
  "row_before [] a b = True"
| "row_before ((f, d) # rest) a b =
     (if d = ''ASC'' then col_lt f a b \<or> (\<not> col_lt f b a \<and> row_before rest a b)
      else col_lt f b a \<or> (\<not> col_lt f a b \<and> row_before rest a b))"

definition order_ok :: "(string \<times> string) list \<Rightarrow> bool" where
  "order_ok ord = list_all (\<lambda>(f, d). f \<in> set columns \<and> (d = ''ASC'' \<or> d = ''DESC'')) ord"

text \<open>The engine's order. Rows that compare equal under the \<open>ORDER BY\<close> terms come in
  the order of their rowid (the column \<open>id\<close>), ascending when the last term is ascending
  and descending when it is descending, as when an index on the sort column, whose
  entries end with the rowid, is walked forwards or backwards. The sort itself is an
  insertion sort on the engine's order.\<close>

definition engine_order :: "(string \<times> string) list \<Rightarrow> (string \<times> string) list" where
  "engine_order ord = (if ord = [] then [] else ord @ [(''id'', snd (last ord))])"

fun insort_row :: "(string \<times> string) list \<Rightarrow> UserRow \<Rightarrow> UserRow list \<Rightarrow> UserRow list" where
  "insort_row ord x [] = [x]"
| "insort_row ord x (y # ys) =
     (if row_before ord x y then x # y # ys else y # insort_row ord x ys)"

definition sort_rows :: "(string \<times> string) list \<Rightarrow> UserRow list \<Rightarrow> UserRow list" where
  "sort_rows ord xs = foldr (insort_row ord) xs []"

text \<open>\<open>LIMIT n\<close> (a negative \<open>n\<close> is no limit) and \<open>OFFSET k\<close> (a negative \<open>k\<close> is 0).\<close>

definition sql_limit :: "int \<Rightarrow> 'a list \<Rightarrow> 'a list" where
  "sql_limit n xs = (if n < 0 then xs else take (nat n) xs)"

definition sql_offset :: "int \<Rightarrow> 'a list \<Rightarrow> 'a list" where
  "sql_offset k xs = drop (nat k) xs"

record statement =
  st_sql :: string
  st_where :: "frag list"
  st_order :: "(string \<times> string) list"
  st_offset :: bool

datatype sql_error = PrepareError | MissingParameter | DatatypeMismatch

text \<open>A number is bound as a floating point value. Where the statement needs an integer
  (\<open>LIMIT\<close>, \<open>OFFSET\<close>) it is converted when it has an integer value strictly between
  \<open>-2^63\<close> and \<open>2^63\<close>; \<open>NaN\<close> (bound as \<open>NULL\<close>), the infinities and the values
  outside that range are not.\<close>

definition sql_integer :: "jsnum \<Rightarrow> int option" where
  "sql_integer v =
     (case v of
        Num n \<Rightarrow> if - (2 ^ 63) < n \<and> n < 2 ^ 63 then Some n else None
      | _ \<Rightarrow> None)"

text \<open>\<open>stmt.all(params)\<close> of a row statement. An unknown column or direction fails when
  the statement is prepared, a named parameter of the text that is not bound fails, and a
  \<open>LIMIT\<close> or \<open>OFFSET\<close> that cannot be converted to an integer is a datatype
  mismatch.\<close>

definition stmt_all :: "UserRow list \<Rightarrow> statement \<Rightarrow> sql_params \<Rightarrow> sql_error + UserRow list" where
  "stmt_all tbl st ps =
     (if \<not> order_ok (st_order st) then Inl PrepareError
      else if \<not> list_all (frag_bound ps) (st_where st) then Inl MissingParameter
      else (case p_limit ps of
              None \<Rightarrow> Inl MissingParameter
            | Some l \<Rightarrow>
                (case sql_integer l of
                   None \<Rightarrow> Inl DatatypeMismatch
                 | Some n \<Rightarrow>
                     let sorted_rows = sort_rows (engine_order (st_order st))
                                         (filter (where_holds ps (st_where st)) tbl)
                     in if st_offset st
                        then (case p_offset ps of
                                None \<Rightarrow> Inl MissingParameter
                              | Some off \<Rightarrow>
                                  (case sql_integer off of
                                     None \<Rightarrow> Inl DatatypeMismatch
                                   | Some k \<Rightarrow> Inr (sql_limit n (sql_offset k sorted_rows))))
                        else Inr (sql_limit n sorted_rows))))"


text \<open>\<open>parts.join(sep)\<close>.\<close>

fun join :: "string \<Rightarrow> string list \<Rightarrow> string" where
  "join sep [] = []"
| "join sep [x] = x"
| "join sep (x # y # ys) = x @ sep @ join sep (y # ys)"

definition whereSql_of :: "frag list \<Rightarrow> string" where
  "whereSql_of wh = (if wh \<noteq> [] then ''WHERE '' @ join '' AND '' (map frag_sql wh) else [])"

definition rowsStmt :: "frag list \<Rightarrow> string \<Rightarrow> string \<Rightarrow> statement" where
  "rowsStmt wh field dir =
     \<lparr>st_sql = ''\<newline>    SELECT id, name, email, status, createdAt\<newline>    FROM users\<newline>    ''
               @ whereSql_of wh @ ''\<newline>    ORDER BY '' @ field @ '' '' @ dir
               @ ''\<newline>    LIMIT @limit OFFSET @offset\<newline>  '',
      st_where = wh, st_order = [(field, dir)], st_offset = True\<rparr>"

definition countStmt :: "frag list \<Rightarrow> statement" where
  "countStmt wh =
     \<lparr>st_sql = ''\<newline>      SELECT COUNT(*) as totalCount\<newline>      FROM users\<newline>      ''
               @ whereSql_of wh @ ''\<newline>    '',
      st_where = wh, st_order = [], st_offset = False\<rparr>"

definition cursor_rowsStmt :: "frag list \<Rightarrow> statement" where
  "cursor_rowsStmt wh =
     \<lparr>st_sql = ''\<newline>    SELECT id, name, email, status, createdAt\<newline>    FROM users\<newline>    ''
               @ whereSql_of wh
               @ ''\<newline>    ORDER BY createdAt DESC, id DESC\<newline>    LIMIT @limit\<newline>  '',
      st_where = wh, st_order = [(''createdAt'', ''DESC''), (''id'', ''DESC'')], st_offset = False\<rparr>"

section \<open>JSON text of the cache key\<close>

text \<open>\<open>JSON.stringify\<close> of a string: the quote and the backslash are escaped, the control
  characters are written \<open>\b \t \n \f \r\<close> or \<open>\u00XX\<close>, every other character stands
  for itself.\<close>

definition hex_digit :: "nat \<Rightarrow> char" where
  "hex_digit k = ''0123456789abcdef'' ! (k mod 16)"

definition json_escape :: "char \<Rightarrow> string" where
  "json_escape c =
     (let n = (of_char c :: nat) in
      if c = CHR 0x22 then [CHR 0x5C, CHR 0x22]
      else if c = CHR 0x5C then [CHR 0x5C, CHR 0x5C]
      else if n = 8 then [CHR 0x5C, CHR ''b'']
      else if n = 9 then [CHR 0x5C, CHR ''t'']
      else if n = 10 then [CHR 0x5C, CHR ''n'']
      else if n = 12 then [CHR 0x5C, CHR ''f'']
      else if n = 13 then [CHR 0x5C, CHR ''r'']
      else if n < 32 then [CHR 0x5C, CHR ''u'', CHR ''0'', CHR ''0'', hex_digit (n div 16), hex_digit n]
      else [c])"

definition json_string :: "string \<Rightarrow> string" where
  "json_string s = CHR 0x22 # concat (map json_escape s) @ [CHR 0x22]"

text \<open>A value that is a string or \<open>null\<close>.\<close>

definition json_nullable :: "string option \<Rightarrow> string" where
  "json_nullable v = (case v of None \<Rightarrow> ''null'' | Some s \<Rightarrow> json_string s)"

definition json_object :: "(string \<times> string) list \<Rightarrow> string" where
  "json_object members =
     ''{'' @ join '','' (map (\<lambda>(k, v). json_string k @ '':'' @ v) members) @ ''}''"

section \<open>The offset endpoint \<open>/api/users\<close>\<close>

datatype status_enum = ACTIVE | INACTIVE

fun status_text :: "status_enum \<Rightarrow> string" where
  "status_text ACTIVE = ''ACTIVE''"
| "status_text INACTIVE = ''INACTIVE''"

text \<open>The query after coercion (\<open>parsed.data\<close>); \<open>q_page\<close> and \<open>q_pageSize\<close> are the
  integer values of the coerced numbers. The bounds of \<open>QuerySchema\<close> are checked by
  \<open>QuerySchema_ok\<close>.\<close>

record query_data =
  q_page :: int
  q_pageSize :: int
  q_search :: string
  q_status :: "status_enum option"
  q_sort :: string


record normalized_filter =
  n_status :: "string option"
  n_search :: "string option"

definition where_of :: "query_data \<Rightarrow> frag list" where
  "where_of q =
     (if q_status q \<noteq> None then [StatusEq] else [])
     @ (if q_search q \<noteq> [] \<and> length (trim (q_search q)) > 0 then [NameOrEmailLike] else [])"

definition params_of :: "query_data \<Rightarrow> sql_params" where
  "params_of q =
     no_params
       \<lparr>p_status := map_option status_text (q_status q),
        p_q := (if q_search q \<noteq> [] \<and> length (trim (q_search q)) > 0
                then Some (''%'' @ trim (q_search q) @ ''%'') else None)\<rparr>"

definition normalized :: "query_data \<Rightarrow> normalized_filter" where
  "normalized q =
     \<lparr>n_status = map_option status_text (q_status q),
      n_search = (if q_search q \<noteq> [] \<and> length (trim (q_search q)) > 0
                  then Some (trim (q_search q)) else None)\<rparr>"

definition countCacheKey :: "query_data \<Rightarrow> string" where
  "countCacheKey q =
     json_object
       [(''whereSql'', json_string (whereSql_of (where_of q))),
        (''normalized'',
           json_object [(''status'', json_nullable (n_status (normalized q))),
                        (''search'', json_nullable (n_search (normalized q)))])]"

record users_request =
  rq_page :: int
  rq_pageSize :: int
  rq_sort :: string
  rq_status :: "string option"
  rq_search :: string

text \<open>\<open>queryTimeMs\<close> and \<open>countTimeMs\<close>, differences of wall-clock readings shown for
  diagnosis, are left out of \<open>meta\<close>.\<close>

record users_meta =
  m_countFromCache :: bool
  m_countCacheTtlMs :: int
  m_page :: int
  m_pageSize :: int
  m_sort :: string
  m_status :: "string option"
  m_search :: string

record ApiRes =
  rows :: "UserRow list"
  totalCount :: int
  request :: users_request
  meta :: users_meta

record server =
  users :: "UserRow list"
  countCache :: count_cache

datatype http_error = BadRequest | ServerError sql_error

definition users_response :: "query_data \<Rightarrow> UserRow list \<Rightarrow> int \<Rightarrow> bool \<Rightarrow> ApiRes" where
  "users_response q rs counted fromCache =
     \<lparr>rows = rs, totalCount = counted,
      request = \<lparr>rq_page = q_page q, rq_pageSize = q_pageSize q, rq_sort = q_sort q,
                 rq_status = map_option status_text (q_status q), rq_search = q_search q\<rparr>,
      meta = \<lparr>m_countFromCache = fromCache, m_countCacheTtlMs = COUNT_CACHE_TTL_MS,
              m_page = q_page q, m_pageSize = q_pageSize q,
              m_sort = sort_field (parseSort (q_sort q)) @ '':''
                       @ toLowerCase (sort_dir (parseSort (q_sort q))),
              m_status = map_option status_text (q_status q), m_search = q_search q\<rparr>\<rparr>"


section \<open>The keyset endpoint \<open>/api/users-cursor\<close>\<close>

text \<open>The raw query string parameters: absent, or a string.\<close>

record cursor_query =
  cq_pageSize :: "string option"
  cq_search :: "string option"
  cq_status :: "string option"
  cq_cursorCreatedAt :: "string option"
  cq_cursorId :: "string option"

record cursor_meta =
  cm_pageSize :: jsnum
  cm_status :: "string option"
  cm_search :: string
  usedCursor :: "(string \<times> jsnum option) option"

record CursorRes =
  c_rows :: "UserRow list"
  nextCursor :: "(string \<times> int) option"
  c_meta :: cursor_meta

definition cursor_pageSize :: "cursor_query \<Rightarrow> jsnum" where
  "cursor_pageSize q =
     Math_min (Math_max (parseInt (js_or (cq_pageSize q) ''100'')) (Num 1)) (Num 10000)"

definition cursor_search :: "cursor_query \<Rightarrow> string" where
  "cursor_search q = trim (js_or (cq_search q) [])"

definition cursor_status :: "cursor_query \<Rightarrow> string option" where
  "cursor_status q = truthy_or_null (cq_status q)"

definition cursorCreatedAt :: "cursor_query \<Rightarrow> string option" where
  "cursorCreatedAt q = truthy_or_null (cq_cursorCreatedAt q)"

definition cursorId :: "cursor_query \<Rightarrow> jsnum option" where
  "cursorId q = map_option parseInt (truthy_or_null (cq_cursorId q))"

definition cursor_where :: "cursor_query \<Rightarrow> frag list" where
  "cursor_where q =
     (if cursor_status q = Some ''ACTIVE'' \<or> cursor_status q = Some ''INACTIVE''
      then [StatusEq] else [])
     @ (if length (cursor_search q) > 0 then [NameOrEmailLike] else [])
     @ (if cursorCreatedAt q \<noteq> None \<and> Number_isInteger (cursorId q) then [CursorBound] else [])"

definition cursor_params :: "cursor_query \<Rightarrow> sql_params" where
  "cursor_params q =
     no_params
       \<lparr>p_limit := Some (cursor_pageSize q),
        p_status := (if cursor_status q = Some ''ACTIVE'' \<or> cursor_status q = Some ''INACTIVE''
                     then cursor_status q else None),
        p_q := (if length (cursor_search q) > 0 then Some (''%'' @ cursor_search q @ ''%'') else None),
        p_cursorCreatedAt := (if cursorCreatedAt q \<noteq> None \<and> Number_isInteger (cursorId q)
                              then cursorCreatedAt q else None),
        p_cursorId := (if cursorCreatedAt q \<noteq> None \<and> Number_isInteger (cursorId q)
                       then (case cursorId q of Some (Num i) \<Rightarrow> Some i | _ \<Rightarrow> None) else None)\<rparr>"

definition users_cursor_handler :: "cursor_query \<Rightarrow> UserRow list \<Rightarrow> http_error + CursorRes" where
  "users_cursor_handler q tbl =
     (case stmt_all tbl (cursor_rowsStmt (cursor_where q)) (cursor_params q) of
        Inl e \<Rightarrow> Inl (ServerError e)
      | Inr rs \<Rightarrow>
          let last_row = (if length rs \<noteq> 0 then Some (rs ! (length rs - 1)) else None)
          in Inr \<lparr>c_rows = rs,
                  nextCursor = (case last_row of
                                  Some l \<Rightarrow> Some (r_createdAt l, r_id l)
                                | None \<Rightarrow> None),
                  c_meta = \<lparr>cm_pageSize = cursor_pageSize q,
                            cm_status = cursor_status q,
                            cm_search = cursor_search q,
                            usedCursor = (case cursorCreatedAt q of
                                            Some c \<Rightarrow> Some (c, cursorId q)
                                          | None \<Rightarrow> None)\<rparr>\<rparr>)"



section \<open>The client: \<open>fetchData\<close>\<close>

text \<open>
  The state of the component that \<open>fetchData\<close> reads and writes: the React state shown
  to the user (\<open>rows\<close>, \<open>totalCount\<close>, \<open>apiResRequest\<close>, \<open>meta\<close>, \<open>fetchTotalLog\<close>),
  the two refs, and the console. An \<open>AbortController\<close> is identified by the number of
  the request it was made for; \<open>aborted\<close> lists the controllers on which \<open>abort()\<close> was
  called. The request counter is a natural number (it would need \<open>2^53\<close> requests to
  leave the exact range of a double). Building the URL is not modelled.
\<close>

record QueryState =
  qs_page :: int
  qs_pageSize :: int
  qs_sort :: string
  qs_search :: string
  qs_status :: string

text \<open>A thrown value; the handler reads only \<open>e?.name\<close>.\<close>

record thrown =
  t_name :: "string option"

datatype console_entry = ConsoleLog string users_meta | ConsoleError thrown

record client =
  ui_rows :: "UserRow list"
  ui_totalCount :: int
  apiResRequest :: "users_request option"
  ui_meta :: "users_meta option"
  fetchTotalLog :: string
  abortRef :: "nat option"
  aborted :: "nat list"
  reqIdRef :: nat
  console :: "console_entry list"

definition client_init :: client where
  "client_init =
     \<lparr>ui_rows = [], ui_totalCount = 0, apiResRequest = None, ui_meta = None,
      fetchTotalLog = [], abortRef = None, aborted = [], reqIdRef = 0, console = []\<rparr>"

text \<open>The state the user sees.\<close>

definition ui_state ::
  "client \<Rightarrow> UserRow list \<times> int \<times> users_request option \<times> users_meta option" where
  "ui_state s = (ui_rows s, ui_totalCount s, apiResRequest s, ui_meta s)"

text \<open>\<open>fetchData\<close> up to its first \<open>await\<close>: the previous controller is aborted, a new
  one is stored, and the request takes the next number. The result is \<open>myReqId\<close> and
  the new state.\<close>

definition fetchData_start :: "QueryState \<Rightarrow> client \<Rightarrow> nat \<times> client" where
  "fetchData_start q s =
     (let s1 = (case abortRef s of None \<Rightarrow> s | Some c \<Rightarrow> s\<lparr>aborted := c # aborted s\<rparr>);
          controller = Suc (reqIdRef s1);
          s2 = s1\<lparr>abortRef := Some controller\<rparr>;
          myReqId = Suc (reqIdRef s2)
      in (myReqId, s2\<lparr>reqIdRef := myReqId\<rparr>))"

text \<open>How the awaited network call ends: with the parsed body and the elapsed time as
  formatted by \<open>toFixed(1)\<close>, or with a thrown value.\<close>

datatype outcome = Fulfilled ApiRes string | Rejected thrown

text \<open>\<open>fetchData\<close> after the \<open>await\<close>, for the call that was given \<open>myReqId\<close>. The
  first component is how the promise returned by \<open>fetchData\<close> settles: \<open>Inr ()\<close> when it
  is fulfilled, \<open>Inl e\<close> when it is rejected with \<open>e\<close>.\<close>

definition fetchData_settle :: "nat \<Rightarrow> outcome \<Rightarrow> client \<Rightarrow> (thrown + unit) \<times> client" where
  "fetchData_settle myReqId out s =
     (case out of
        Fulfilled json elapsed \<Rightarrow>
          if myReqId \<noteq> reqIdRef s then (Inr (), s)
          else (Inr (),
                s\<lparr>ui_rows := rows json,
                  ui_totalCount := totalCount json,
                  apiResRequest := Some (request json),
                  ui_meta := Some (meta json),
                  fetchTotalLog := elapsed,
                  console := console s @ [ConsoleLog elapsed (meta json)]\<rparr>)
      | Rejected e \<Rightarrow>
          if t_name e = Some ''AbortError'' then (Inr (), s)
          else (Inr (), s\<lparr>console := console s @ [ConsoleError e]\<rparr>))"

text \<open>A history of the component: calls of \<open>fetchData\<close> and settlements of earlier
  calls, in any order.\<close>

datatype event = Dispatch QueryState | Settle nat outcome

fun step :: "event \<Rightarrow> client \<Rightarrow> client" where
  "step (Dispatch q) s = snd (fetchData_start q s)"
| "step (Settle t out) s = snd (fetchData_settle t out s)"

definition run :: "event list \<Rightarrow> client \<Rightarrow> client" where
  "run evs s = fold step evs s"

text \<open>The request numbers handed out along a history, in order, and the highest of
  them (0 when none was handed out).\<close>

fun issued :: "event list \<Rightarrow> client \<Rightarrow> nat list" where
  "issued [] s = []"
| "issued (Dispatch q # evs) s =
     fst (fetchData_start q s) # issued evs (snd (fetchData_start q s))"
| "issued (Settle t out # evs) s = issued evs (snd (fetchData_settle t out s))"

definition highest_issued :: "event list \<Rightarrow> nat" where
  "highest_issued evs = foldr max (issued evs client_init) 0"

section \<open>Example data\<close>

definition example_users :: "UserRow list" where
  "example_users =
     [\<lparr>r_id = 1, r_name = ''User 1'', r_email = ''user1@example.com'', r_status = ''INACTIVE'',
        r_createdAt = ''2026-01-03''\<rparr>,
      \<lparr>r_id = 2, r_name = ''User 2'', r_email = ''user2@example.com'', r_status = ''ACTIVE'',
        r_createdAt = ''2026-01-02''\<rparr>,
      \<lparr>r_id = 3, r_name = ''User 3'', r_email = ''user3@example.com'', r_status = ''INACTIVE'',
        r_createdAt = ''2026-01-02''\<rparr>,
      \<lparr>r_id = 4, r_name = ''User 4'', r_email = ''user4@example.com'', r_status = ''ACTIVE'',
        r_createdAt = ''2026-01-01''\<rparr>]"


definition example_partial_cursor :: cursor_query where
  "example_partial_cursor =
     \<lparr>cq_pageSize = Some ''2'', cq_search = Some ''USER'', cq_status = None,
      cq_cursorCreatedAt = Some ''2026-01-02'', cq_cursorId = Some ''abc''\<rparr>"

definition example_createdAt_only :: cursor_query where
  "example_createdAt_only =
     \<lparr>cq_pageSize = Some ''2'', cq_search = None, cq_status = None,
      cq_cursorCreatedAt = Some ''2026-01-02'', cq_cursorId = None\<rparr>"



text \<open>A \<open>cursorId\<close> of 309 digits, the integer \<open>2 * 10^308\<close>, beyond the largest
  double.\<close>

definition example_overflow_cursor :: cursor_query where
  "example_overflow_cursor =
     \<lparr>cq_pageSize = Some ''2'', cq_search = None, cq_status = None,
      cq_cursorCreatedAt = Some ''2026-01-02'',
      cq_cursorId = Some (CHR ''2'' # replicate 308 (CHR ''0''))\<rparr>"

text \<open>A \<open>cursorId\<close> just above \<open>2^53\<close>, which is not a double.\<close>

definition example_rounded_cursor :: cursor_query where
  "example_rounded_cursor =
     \<lparr>cq_pageSize = Some ''2'', cq_search = None, cq_status = None,
      cq_cursorCreatedAt = Some ''2026-01-02'', cq_cursorId = Some ''9007199254740993''\<rparr>"

definition example_query :: query_data where
  "example_query =
     \<lparr>q_page = 1, q_pageSize = 1, q_search = '' user '', q_status = Some ACTIVE,
      q_sort = ''createdAt:asc''\<rparr>"



definition example_hostile_query :: query_data where
  "example_hostile_query =
     \<lparr>q_page = 7, q_pageSize = 10, q_search = ''x%'' @ [CHR 0x27] @ ''; DROP TABLE users; --'',
      q_status = Some INACTIVE, q_sort = ''createdAt:ASC:zz''\<rparr>"

definition example_qs :: QueryState where
  "example_qs = \<lparr>qs_page = 1, qs_pageSize = 50, qs_sort = ''createdAt:desc'', qs_search = [],
                  qs_status = []\<rparr>"

definition example_res :: "int \<Rightarrow> ApiRes" where
  "example_res k = users_response example_query (take (nat k) example_users) k False"

definition example_failure :: thrown where
  "example_failure = \<lparr>t_name = Some ''TypeError''\<rparr>"

section \<open>Properties of the count cache\<close>

lemma getCountCache_absent:
  "c key = None \<Longrightarrow> getCountCache key t c = (None, c)"
  by (simp add: getCountCache_def)

lemma getCountCache_keeps_absent:
  "c key = None \<Longrightarrow> snd (getCountCache k t c) key = None"
  by (simp add: getCountCache_def split: option.splits)

lemma get_all_keeps_absent:
  "c key = None \<Longrightarrow> snd (get_all ops c) key = None"
proof (induction ops arbitrary: c)
  case Nil
  then show ?case by simp
next
  case (Cons a ops)
  obtain k t where a: "a = (k, t)" by (cases a)
  have "snd (getCountCache k t c) key = None"
    using Cons.prems by (rule getCountCache_keeps_absent)
  then have "snd (get_all ops (snd (getCountCache k t c))) key = None"
    by (rule Cons.IH)
  then show ?case
    by (auto simp: a split: prod.splits)
qed

text \<open>
  Claim C5. A \<open>set\<close> followed by a \<open>get\<close> of the same key at a time strictly before
  the 30 second TTL (counted from the write) has elapsed returns the value written. Once
  the \<open>expiresAt\<close> of the stored entry has passed, \<open>get\<close> returns absent and removes
  the entry from the map, and after that no lookup of the key, at whatever time and after
  whatever other lookups, returns a value. A value that \<open>get\<close> does return belongs to an
  entry whose \<open>expiresAt\<close> has not passed.
\<close>

theorem count_cache_ttl:
  "(now' < now + COUNT_CACHE_TTL_MS \<longrightarrow>
      getCountCache key now' (setCountCache key v now c) = (Some v, setCountCache key v now c))
   \<and> COUNT_CACHE_TTL_MS = 30000
   \<and> (now + COUNT_CACHE_TTL_MS < now' \<longrightarrow>
      getCountCache key now' (setCountCache key v now c) = (None, c(key := None)))
   \<and> (c key = Some e \<and> expiresAt e < now' \<longrightarrow>
      getCountCache key now' c = (None, c(key := None))
      \<and> (\<forall>ops t. getCountCache key t (snd (get_all ops (snd (getCountCache key now' c)))) =
                    (None, snd (get_all ops (snd (getCountCache key now' c))))))
   \<and> (fst (getCountCache key t c) = Some v' \<longrightarrow>
      (\<exists>e. c key = Some e \<and> cache_value e = v' \<and> t \<le> expiresAt e))"
proof (intro conjI impI allI)
  show "COUNT_CACHE_TTL_MS = 30000" by (simp add: COUNT_CACHE_TTL_MS_def)
next
  assume "now' < now + COUNT_CACHE_TTL_MS"
  then show "getCountCache key now' (setCountCache key v now c) = (Some v, setCountCache key v now c)"
    by (simp add: getCountCache_def setCountCache_def)
next
  assume "now + COUNT_CACHE_TTL_MS < now'"
  then show "getCountCache key now' (setCountCache key v now c) = (None, c(key := None))"
    by (simp add: getCountCache_def setCountCache_def)
next
  assume h: "c key = Some e \<and> expiresAt e < now'"
  then show "getCountCache key now' c = (None, c(key := None))"
    by (simp add: getCountCache_def)
next
  fix ops t
  assume h: "c key = Some e \<and> expiresAt e < now'"
  then have "snd (getCountCache key now' c) key = None"
    by (simp add: getCountCache_def)
  then have "snd (get_all ops (snd (getCountCache key now' c))) key = None"
    by (rule get_all_keeps_absent)
  then show "getCountCache key t (snd (get_all ops (snd (getCountCache key now' c)))) =
             (None, snd (get_all ops (snd (getCountCache key now' c))))"
    by (rule getCountCache_absent)
next
  assume "fst (getCountCache key t c) = Some v'"
  then show "\<exists>e. c key = Some e \<and> cache_value e = v' \<and> t \<le> expiresAt e"
    by (auto simp: getCountCache_def split: option.splits if_splits)
qed

theorem count_cache_ttl_witness:
  "getCountCache ''k'' 29999 (setCountCache ''k'' 7 0 Map.empty) = (Some 7, setCountCache ''k'' 7 0 Map.empty)
   \<and> getCountCache ''k'' 30001 (setCountCache ''k'' 7 0 Map.empty) = (None, Map.empty(''k'' := None))
   \<and> getCountCache ''k'' 5 (snd (get_all [(''j'', 1), (''k'', 2)]
        (snd (getCountCache ''k'' 30001 (setCountCache ''k'' 7 0 Map.empty))))) =
      (None, snd (get_all [(''j'', 1), (''k'', 2)]
        (snd (getCountCache ''k'' 30001 (setCountCache ''k'' 7 0 Map.empty)))))"
proof -
  let ?c = "setCountCache ''k'' 7 0 Map.empty"
  have ttl: "COUNT_CACHE_TTL_MS = 30000" by (simp add: COUNT_CACHE_TTL_MS_def)
  have a: "(29999::int) < 0 + COUNT_CACHE_TTL_MS" by (simp add: ttl)
  have b: "(0::int) + COUNT_CACHE_TTL_MS < 30001" by (simp add: ttl)
  have e: "?c ''k'' = Some \<lparr>cache_value = 7, expiresAt = 30000\<rparr>
           \<and> expiresAt \<lparr>cache_value = 7, expiresAt = 30000\<rparr> < 30001"
    by (simp add: setCountCache_def ttl)
  note t1 = count_cache_ttl [of 29999 0 "''k''" 7 Map.empty]
  note t2 = count_cache_ttl [of _ _ "''k''" _ ?c "\<lparr>cache_value = 7, expiresAt = 30000\<rparr>" 30001]
  from t1 a have p1: "getCountCache ''k'' 29999 ?c = (Some 7, ?c)" by blast
  from count_cache_ttl [of _ 0 "''k''" 7 Map.empty _ 30001] b
  have p2: "getCountCache ''k'' 30001 ?c = (None, Map.empty(''k'' := None))" by blast
  from t2 e have p3: "\<forall>ops t. getCountCache ''k'' t (snd (get_all ops (snd (getCountCache ''k'' 30001 ?c)))) =
                    (None, snd (get_all ops (snd (getCountCache ''k'' 30001 ?c))))" by blast
  from p1 p2 p3 show ?thesis by blast
qed

section \<open>Properties of sort parsing\<close>

lemma split_char_nonempty: "split_char sep s \<noteq> []"
  by (induction s) (auto split: list.splits)

lemma split_char_hd: "hd (split_char sep s) = takeWhile (\<lambda>c. c \<noteq> sep) s"
  by (induction s) (auto split: list.splits simp: split_char_nonempty)

lemma split_char_first: "nth_opt (split_char sep s) 0 = Some (takeWhile (\<lambda>c. c \<noteq> sep) s)"
  using split_char_nonempty [of sep s] split_char_hd [of sep s]
  by (cases "split_char sep s") (simp_all add: nth_opt_def)

lemma split_char_second:
  "nth_opt (split_char sep s) 1 =
     (if sep \<in> set s then Some (takeWhile (\<lambda>c. c \<noteq> sep) (tl (dropWhile (\<lambda>c. c \<noteq> sep) s))) else None)"
proof (induction s)
  case Nil
  then show ?case by (simp add: nth_opt_def)
next
  case (Cons c cs)
  show ?case
  proof (cases "c = sep")
    case True
    have "split_char sep cs \<noteq> []" by (rule split_char_nonempty)
    then have "nth_opt ([] # split_char sep cs) 1 = Some (hd (split_char sep cs))"
      by (cases "split_char sep cs") (simp_all add: nth_opt_def)
    with True show ?thesis by (simp add: split_char_hd)
  next
    case False
    obtain p ps where sp: "split_char sep cs = p # ps"
      using split_char_nonempty [of sep cs] by (cases "split_char sep cs") auto
    have "nth_opt ((c # p) # ps) 1 = nth_opt (p # ps) 1"
      by (simp add: nth_opt_def)
    with False sp Cons.IH show ?thesis by simp
  qed
qed

lemma lower_char_eq:
  assumes t: "of_char t = (n::nat)" and n: "97 \<le> n" "n \<le> 122"
  shows "toLowerCase_char c = t \<longleftrightarrow> (c = t \<or> of_char c = n - 32)"
proof -
  define m where "m = (of_char c :: nat)"
  show ?thesis
  proof (cases "(65 \<le> m \<and> m \<le> 90) \<or> (192 \<le> m \<and> m \<le> 222 \<and> m \<noteq> 215)")
    case True
    then have low: "toLowerCase_char c = char_of (m + 32)"
      by (simp add: toLowerCase_char_def m_def Let_def)
    have "char_of (m + 32) = t \<longleftrightarrow> (of_char (char_of (m + 32)) :: nat) = of_char t"
      by (simp only: of_char_eq_iff)
    also have "\<dots> \<longleftrightarrow> m + 32 = n"
    proof -
      have "m + 32 < 256" using True by arith
      then have "(m + 32) mod 256 = m + 32" by simp
      then show ?thesis by (simp add: t)
    qed
    finally have a: "toLowerCase_char c = t \<longleftrightarrow> m + 32 = n"
      by (simp add: low)
    have "c \<noteq> t"
    proof
      assume "c = t"
      then have "m = n" by (simp add: m_def t)
      with True n show False by arith
    qed
    with a show ?thesis
      using n m_def by auto
  next
    case False
    then have low: "toLowerCase_char c = c"
      unfolding toLowerCase_char_def m_def Let_def by (simp only: if_False)
    have "m \<noteq> n - 32" using False n by arith
    then show ?thesis by (simp add: low m_def)
  qed
qed

lemma lower_a: "toLowerCase_char c = CHR ''a'' \<longleftrightarrow> c = CHR ''a'' \<or> c = CHR ''A''"
proof -
  have "(of_char c = (97::nat) - 32) = (c = CHR ''A'')"
    using of_char_eq_iff [of c "CHR ''A''", where ?'a = nat] by simp
  with lower_char_eq [of "CHR ''a''" 97 c] show ?thesis by simp
qed

lemma lower_s: "toLowerCase_char c = CHR ''s'' \<longleftrightarrow> c = CHR ''s'' \<or> c = CHR ''S''"
proof -
  have "(of_char c = (115::nat) - 32) = (c = CHR ''S'')"
    using of_char_eq_iff [of c "CHR ''S''", where ?'a = nat] by simp
  with lower_char_eq [of "CHR ''s''" 115 c] show ?thesis by simp
qed

lemma lower_c: "toLowerCase_char c = CHR ''c'' \<longleftrightarrow> c = CHR ''c'' \<or> c = CHR ''C''"
proof -
  have "(of_char c = (99::nat) - 32) = (c = CHR ''C'')"
    using of_char_eq_iff [of c "CHR ''C''", where ?'a = nat] by simp
  with lower_char_eq [of "CHR ''c''" 99 c] show ?thesis by simp
qed

lemma toLowerCase_asc: "toLowerCase d = ''asc'' \<longleftrightarrow> d \<in> set asc_spellings"
proof -
  have "toLowerCase d = ''asc'' \<longleftrightarrow>
        (\<exists>x y z. d = [x, y, z] \<and> toLowerCase_char x = CHR ''a'' \<and> toLowerCase_char y = CHR ''s''
                  \<and> toLowerCase_char z = CHR ''c'')"
    by (auto simp: toLowerCase_def map_eq_Cons_conv)
  also have "\<dots> \<longleftrightarrow> d \<in> set asc_spellings"
    unfolding lower_a lower_s lower_c asc_spellings_def by auto
  finally show ?thesis .
qed

text \<open>
  Claim C7. A sort string whose field part is outside the allowlist resolves to the field
  \<open>createdAt\<close> (and one whose field part is allowed keeps it); the direction is \<open>ASC\<close>
  exactly when the direction part is present and is a spelling of \<open>asc\<close> in any letter
  case, and \<open>DESC\<close> otherwise, also when the direction part is absent. \<open>parseSort\<close> has
  no failing path: it is a total function whose result always names an allowed field.
\<close>

theorem parseSort_resolves:
  "(spec_field_part s \<notin> set allowed \<longrightarrow> sort_field (parseSort s) = ''createdAt'')
   \<and> (spec_field_part s \<in> set allowed \<longrightarrow> sort_field (parseSort s) = spec_field_part s)
   \<and> (sort_dir (parseSort s) = ''ASC'' \<longleftrightarrow>
        (\<exists>d. spec_dir_part s = Some d \<and> d \<in> set asc_spellings))
   \<and> (sort_dir (parseSort s) \<noteq> ''ASC'' \<longrightarrow> sort_dir (parseSort s) = ''DESC'')
   \<and> sort_field (parseSort s) \<in> set allowed"
proof -
  have f: "nth_opt (split_char (CHR '':'') s) 0 = Some (spec_field_part s)"
    by (simp add: split_char_first spec_field_part_def)
  have d: "nth_opt (split_char (CHR '':'') s) 1 = spec_dir_part s"
    by (simp only: split_char_second spec_dir_part_def)
  have s: "js_or (Some s) [] = s" by (simp add: js_or_def)
  have "''desc'' \<notin> set asc_spellings" "[] \<notin> set asc_spellings"
    by (simp_all add: asc_spellings_def)
  then have dir: "toLowerCase (js_or (spec_dir_part s) ''desc'') = ''asc'' \<longleftrightarrow>
        (\<exists>d. spec_dir_part s = Some d \<and> d \<in> set asc_spellings)"
    by (cases "spec_dir_part s") (auto simp: js_or_def toLowerCase_asc)
  have al: "[] \<notin> set allowed" "''createdAt'' \<in> set allowed" by (simp_all add: allowed_def)
  then have fld: "spec_field_part s \<in> set allowed \<Longrightarrow>
      js_or (Some (spec_field_part s)) ''createdAt'' = spec_field_part s"
    by (auto simp: js_or_def)
  have fld2: "spec_field_part s \<notin> set allowed \<Longrightarrow>
      js_or (Some (spec_field_part s)) ''createdAt'' \<in> set allowed \<Longrightarrow>
      js_or (Some (spec_field_part s)) ''createdAt'' = ''createdAt''"
    by (auto simp: js_or_def split: if_splits)
  show ?thesis
    unfolding parseSort_def Let_def s f d
    using dir fld fld2 al(2) by auto
qed

theorem parseSort_resolves_witness:
  "spec_field_part ''bogus:AsC'' \<notin> set allowed
   \<and> sort_field (parseSort ''bogus:AsC'') = ''createdAt''
   \<and> sort_dir (parseSort ''bogus:AsC'') = ''ASC''
   \<and> spec_dir_part ''name'' = None
   \<and> sort_field (parseSort ''name'') = ''name''
   \<and> sort_dir (parseSort ''name'') = ''DESC''"
proof -
  have a: "spec_field_part ''bogus:AsC'' \<notin> set allowed"
    by (simp add: spec_field_part_def allowed_def)
  have b: "spec_dir_part ''bogus:AsC'' = Some ''AsC'' \<and> ''AsC'' \<in> set asc_spellings"
    by (simp add: spec_dir_part_def asc_spellings_def)
  have c: "spec_field_part ''name'' = ''name'' \<and> ''name'' \<in> set allowed"
    by (simp add: spec_field_part_def allowed_def)
  have d: "spec_dir_part ''name'' = None"
    by (simp add: spec_dir_part_def)
  from parseSort_resolves [of "''bogus:AsC''"] a b
  have p: "sort_field (parseSort ''bogus:AsC'') = ''createdAt'' \<and> sort_dir (parseSort ''bogus:AsC'') = ''ASC''"
    by blast
  from parseSort_resolves [of "''name''"] c d
  have q: "sort_field (parseSort ''name'') = ''name'' \<and> sort_dir (parseSort ''name'') = ''DESC''"
    by auto
  from a p d q show ?thesis by blast
qed

section \<open>Properties of the engine's sort\<close>



















lemma sql_integer_Num: "abs n < 9007199254740992 \<Longrightarrow> sql_integer (Num n) = Some n"
  by (simp add: sql_integer_def) arith

text \<open>Rows with equal sort keys: descending ids under \<open>DESC\<close>, ascending ids under
  \<open>ASC\<close>.\<close>

lemma engine_order_ties:
  "map r_id (sort_rows (engine_order [(''status'', ''DESC'')]) example_users) = [3, 1, 4, 2]"
  "map r_id (sort_rows (engine_order [(''status'', ''ASC'')]) example_users) = [2, 4, 1, 3]"
  by code_simp+

lemma cursor_bound_lex:
  "(x < c \<or> (x = c \<and> j < i)) = ((x, j) < (c, i))"
  for x c :: string and i j :: int
  by (auto simp: less_prod_def)

section \<open>Properties of the keyset endpoint\<close>

lemma cursor_pageSize_range: "cursor_pageSize q = Num n \<Longrightarrow> 1 \<le> n \<and> n \<le> 10000"
  by (auto simp: cursor_pageSize_def Math_min_def Math_max_def split: jsnum.splits)

text \<open>The clamped page size is never infinite.\<close>

lemma cursor_pageSize_cases: "cursor_pageSize q = NaN \<or> (\<exists>n. cursor_pageSize q = Num n)"
  by (cases "parseInt (js_or (cq_pageSize q) ''100'')")
     (simp_all add: cursor_pageSize_def Math_min_def Math_max_def)

lemma cursor_params_bound: "list_all (frag_bound (cursor_params q)) (cursor_where q)"
  by (auto simp: cursor_where_def cursor_params_def no_params_def Number_isInteger_def
           split: option.splits jsnum.splits)

lemma cursor_order_ok: "order_ok (st_order (cursor_rowsStmt wh))"
  by (simp add: cursor_rowsStmt_def order_ok_def columns_def)

lemma cursor_stmt_all_NaN:
  assumes "cursor_pageSize q = NaN"
  shows "stmt_all tbl (cursor_rowsStmt (cursor_where q)) (cursor_params q) = Inl DatatypeMismatch"
proof -
  have "p_limit (cursor_params q) = Some NaN"
    by (simp add: cursor_params_def assms)
  then show ?thesis
    using cursor_order_ok [of "cursor_where q"] cursor_params_bound [of q]
    by (simp add: stmt_all_def sql_integer_def) (simp add: cursor_rowsStmt_def)
qed

lemma cursor_stmt_all_Num:
  assumes "cursor_pageSize q = Num n"
  shows "stmt_all tbl (cursor_rowsStmt (cursor_where q)) (cursor_params q) =
           Inr (take (nat n)
                  (sort_rows (engine_order [(''createdAt'', ''DESC''), (''id'', ''DESC'')])
                     (filter (where_holds (cursor_params q) (cursor_where q)) tbl)))"
proof -
  have l: "p_limit (cursor_params q) = Some (Num n)"
    by (simp add: cursor_params_def assms)
  have r: "1 \<le> n \<and> n \<le> 10000" using cursor_pageSize_range [OF assms] .
  then have i: "sql_integer (Num n) = Some n"
    by (simp add: sql_integer_Num)
  from r have "\<And>xs :: UserRow list. sql_limit n xs = take (nat n) xs"
    by (simp add: sql_limit_def)
  then show ?thesis
    using cursor_order_ok [of "cursor_where q"] cursor_params_bound [of q] l i
    by (simp add: stmt_all_def) (simp add: cursor_rowsStmt_def)
qed



lemma users_cursor_handler_rows:
  "users_cursor_handler q tbl =
     (case stmt_all tbl (cursor_rowsStmt (cursor_where q)) (cursor_params q) of
        Inl e \<Rightarrow> Inl (ServerError e)
      | Inr rs \<Rightarrow>
          Inr \<lparr>c_rows = rs,
               nextCursor = (if rs = [] then None else Some (r_createdAt (last rs), r_id (last rs))),
               c_meta = \<lparr>cm_pageSize = cursor_pageSize q, cm_status = cursor_status q,
                         cm_search = cursor_search q,
                         usedCursor = map_option (\<lambda>c. (c, cursorId q)) (cursorCreatedAt q)\<rparr>\<rparr>)"
  by (auto simp: users_cursor_handler_def Let_def last_conv_nth split: sum.splits option.splits)




lemma no_cursor_same_statement:
  assumes "\<not> (cursorCreatedAt q \<noteq> None \<and> Number_isInteger (cursorId q))"
  shows "cursor_where (q\<lparr>cq_cursorCreatedAt := None, cq_cursorId := None\<rparr>) = cursor_where q"
    and "cursor_params (q\<lparr>cq_cursorCreatedAt := None, cq_cursorId := None\<rparr>) = cursor_params q"
    and "CursorBound \<notin> set (cursor_where q)"
  using assms
  by (auto simp: cursor_where_def cursor_params_def cursorCreatedAt_def cursorId_def
                 cursor_status_def cursor_search_def cursor_pageSize_def truthy_or_null_def
                 Number_isInteger_def)

lemma no_cursor_same_rows:
  assumes "\<not> (cursorCreatedAt q \<noteq> None \<and> Number_isInteger (cursorId q))"
  shows "map_sum id c_rows (users_cursor_handler q tbl)
           = map_sum id c_rows (users_cursor_handler (q\<lparr>cq_cursorCreatedAt := None, cq_cursorId := None\<rparr>) tbl)"
    and "map_sum id nextCursor (users_cursor_handler q tbl)
           = map_sum id nextCursor (users_cursor_handler (q\<lparr>cq_cursorCreatedAt := None, cq_cursorId := None\<rparr>) tbl)"
  by (simp_all add: users_cursor_handler_rows no_cursor_same_statement(1,2) [OF assms]
               split: sum.splits)

lemma cursor_handler_succeeds:
  assumes "cursor_pageSize q \<noteq> NaN"
  shows "\<exists>res. users_cursor_handler q tbl = Inr res"
proof -
  from assms cursor_pageSize_cases [of q] obtain n where "cursor_pageSize q = Num n"
    by auto
  then show ?thesis
    by (simp add: users_cursor_handler_rows cursor_stmt_all_Num)
qed

lemma cursor_handler_fails:
  assumes "cursor_pageSize q = NaN"
  shows "users_cursor_handler q tbl = Inl (ServerError DatatypeMismatch)"
  by (simp add: users_cursor_handler_rows cursor_stmt_all_NaN [OF assms])

text \<open>The \<open>cursorId\<close> of 309 digits is read as \<open>Infinity\<close>; without its cursor
  fields, the request is answered with the rows 1 and 3.\<close>

lemma overflow_cursorId: "cursorId example_overflow_cursor = Some PosInf"
  by code_simp

lemma overflow_without_cursor:
  "map_sum id (map r_id \<circ> c_rows)
     (users_cursor_handler
        (example_overflow_cursor\<lparr>cq_cursorCreatedAt := None, cq_cursorId := None\<rparr>)
        example_users)
   = Inr [1, 3]"
  by code_simp





text \<open>
  Claim C10. In a response of the keyset endpoint, \<open>meta.usedCursor\<close> is \<open>null\<close> exactly
  when \<open>cursorCreatedAt\<close> is absent from the query (missing or empty, which the handler
  treats alike), and otherwise carries \<open>cursorCreatedAt\<close> with whatever \<open>cursorId\<close> was
  read. So when \<open>cursorCreatedAt\<close> is given and \<open>cursorId\<close> is absent or not an
  integer, \<open>usedCursor\<close> is not \<open>null\<close> although no cursor bound was applied and the rows
  are those of the request without cursor.
\<close>

theorem usedCursor_reports_discarded_cursor:
  "users_cursor_handler q tbl = Inr res \<longrightarrow>
     (usedCursor (c_meta res) = None
        \<longleftrightarrow> cq_cursorCreatedAt q = None \<or> cq_cursorCreatedAt q = Some [])
     \<and> (\<forall>c. cq_cursorCreatedAt q = Some c \<and> c \<noteq> []
          \<longrightarrow> usedCursor (c_meta res) = Some (c, cursorId q))
     \<and> (cursorCreatedAt q \<noteq> None \<and> \<not> Number_isInteger (cursorId q)
          \<longrightarrow> usedCursor (c_meta res) \<noteq> None
              \<and> CursorBound \<notin> set (cursor_where q)
              \<and> map_sum id c_rows
                  (users_cursor_handler (q\<lparr>cq_cursorCreatedAt := None, cq_cursorId := None\<rparr>) tbl)
                = Inr (c_rows res))"
proof
  assume h: "users_cursor_handler q tbl = Inr res"
  then have u: "usedCursor (c_meta res) = map_option (\<lambda>c. (c, cursorId q)) (cursorCreatedAt q)"
    by (auto simp: users_cursor_handler_rows split: sum.splits)
  have p1: "usedCursor (c_meta res) = None
        \<longleftrightarrow> cq_cursorCreatedAt q = None \<or> cq_cursorCreatedAt q = Some []"
    by (auto simp: u cursorCreatedAt_def truthy_or_null_def split: option.splits)
  have p2: "\<forall>c. cq_cursorCreatedAt q = Some c \<and> c \<noteq> []
          \<longrightarrow> usedCursor (c_meta res) = Some (c, cursorId q)"
    by (auto simp: u cursorCreatedAt_def truthy_or_null_def)
  have p3: "cursorCreatedAt q \<noteq> None \<and> \<not> Number_isInteger (cursorId q)
          \<longrightarrow> usedCursor (c_meta res) \<noteq> None
              \<and> CursorBound \<notin> set (cursor_where q)
              \<and> map_sum id c_rows
                  (users_cursor_handler (q\<lparr>cq_cursorCreatedAt := None, cq_cursorId := None\<rparr>) tbl)
                = Inr (c_rows res)"
  proof
    assume a: "cursorCreatedAt q \<noteq> None \<and> \<not> Number_isInteger (cursorId q)"
    then have n: "\<not> (cursorCreatedAt q \<noteq> None \<and> Number_isInteger (cursorId q))" by simp
    have "map_sum id c_rows (users_cursor_handler q tbl) = Inr (c_rows res)"
      by (simp add: h)
    with no_cursor_same_rows(1) [OF n, of tbl] no_cursor_same_statement(3) [OF n] a
    show "usedCursor (c_meta res) \<noteq> None
              \<and> CursorBound \<notin> set (cursor_where q)
              \<and> map_sum id c_rows
                  (users_cursor_handler (q\<lparr>cq_cursorCreatedAt := None, cq_cursorId := None\<rparr>) tbl)
                = Inr (c_rows res)"
      by (simp add: u)
  qed
  from p1 p2 p3 show "(usedCursor (c_meta res) = None
        \<longleftrightarrow> cq_cursorCreatedAt q = None \<or> cq_cursorCreatedAt q = Some [])
     \<and> (\<forall>c. cq_cursorCreatedAt q = Some c \<and> c \<noteq> []
          \<longrightarrow> usedCursor (c_meta res) = Some (c, cursorId q))
     \<and> (cursorCreatedAt q \<noteq> None \<and> \<not> Number_isInteger (cursorId q)
          \<longrightarrow> usedCursor (c_meta res) \<noteq> None
              \<and> CursorBound \<notin> set (cursor_where q)
              \<and> map_sum id c_rows
                  (users_cursor_handler (q\<lparr>cq_cursorCreatedAt := None, cq_cursorId := None\<rparr>) tbl)
                = Inr (c_rows res))"
    by blast
qed

text \<open>A \<open>cursorId\<close> that is not a double is reported as the double the handler read.\<close>

lemma usedCursor_rounded:
  "map_sum id (usedCursor \<circ> c_meta) (users_cursor_handler example_rounded_cursor example_users)
     = Inr (Some (''2026-01-02'', Some (Num 9007199254740992)))"
  by code_simp

theorem usedCursor_reports_discarded_cursor_witness:
  "(\<exists>res. users_cursor_handler example_createdAt_only example_users = Inr res
      \<and> usedCursor (c_meta res) = Some (''2026-01-02'', None)
      \<and> map r_id (c_rows res) = [1, 3]
      \<and> map_sum id c_rows
           (users_cursor_handler
              (example_createdAt_only\<lparr>cq_cursorCreatedAt := None, cq_cursorId := None\<rparr>)
              example_users)
         = Inr (c_rows res))
   \<and> (\<exists>res. users_cursor_handler example_overflow_cursor example_users = Inr res
      \<and> usedCursor (c_meta res) = Some (''2026-01-02'', Some PosInf)
      \<and> CursorBound \<notin> set (cursor_where example_overflow_cursor)
      \<and> map r_id (c_rows res) = [1, 3]
      \<and> map_sum id c_rows
           (users_cursor_handler
              (example_overflow_cursor\<lparr>cq_cursorCreatedAt := None, cq_cursorId := None\<rparr>)
              example_users)
         = Inr (c_rows res))"
proof -
  have ps: "cursor_pageSize example_createdAt_only \<noteq> NaN" by code_simp
  from cursor_handler_succeeds [OF ps, of example_users]
  obtain res where r: "users_cursor_handler example_createdAt_only example_users = Inr res" ..
  have a: "cq_cursorCreatedAt example_createdAt_only = Some ''2026-01-02'' \<and> ''2026-01-02'' \<noteq> []"
    by (simp add: example_createdAt_only_def)
  have b: "cursorCreatedAt example_createdAt_only \<noteq> None
           \<and> \<not> Number_isInteger (cursorId example_createdAt_only)" by code_simp
  have c: "cursorId example_createdAt_only = None" by code_simp
  have d: "map_sum id (map r_id \<circ> c_rows) (users_cursor_handler example_createdAt_only example_users)
       = Inr [1, 3]" by code_simp
  have e: "map r_id (c_rows res) = [1, 3]" using d by (simp add: r)
  note t = usedCursor_reports_discarded_cursor [of example_createdAt_only example_users res,
               THEN mp, OF r]
  note u = t [THEN conjunct2, THEN conjunct1, THEN spec, THEN mp, OF a]
  note v = t [THEN conjunct2, THEN conjunct2, THEN mp, OF b, THEN conjunct2, THEN conjunct2]
  have first: "\<exists>res. users_cursor_handler example_createdAt_only example_users = Inr res
      \<and> usedCursor (c_meta res) = Some (''2026-01-02'', None)
      \<and> map r_id (c_rows res) = [1, 3]
      \<and> map_sum id c_rows
           (users_cursor_handler
              (example_createdAt_only\<lparr>cq_cursorCreatedAt := None, cq_cursorId := None\<rparr>)
              example_users)
         = Inr (c_rows res)"
    by (intro exI [of _ res] conjI) (fact r, simp only: u c, fact e, fact v)
  have ps': "cursor_pageSize example_overflow_cursor \<noteq> NaN" by code_simp
  from cursor_handler_succeeds [OF ps', of example_users]
  obtain res' where r': "users_cursor_handler example_overflow_cursor example_users = Inr res'" ..
  have a': "cq_cursorCreatedAt example_overflow_cursor = Some ''2026-01-02'' \<and> ''2026-01-02'' \<noteq> []"
    by (simp add: example_overflow_cursor_def)
  have cc: "cursorCreatedAt example_overflow_cursor \<noteq> None" by code_simp
  have b': "cursorCreatedAt example_overflow_cursor \<noteq> None
           \<and> \<not> Number_isInteger (cursorId example_overflow_cursor)"
    using cc by (simp add: overflow_cursorId Number_isInteger_def)
  note t' = usedCursor_reports_discarded_cursor [of example_overflow_cursor example_users res',
               THEN mp, OF r']
  note u' = t' [THEN conjunct2, THEN conjunct1, THEN spec, THEN mp, OF a']
  note w' = t' [THEN conjunct2, THEN conjunct2, THEN mp, OF b', THEN conjunct2, THEN conjunct1]
  note v' = t' [THEN conjunct2, THEN conjunct2, THEN mp, OF b', THEN conjunct2, THEN conjunct2]
  have e': "map r_id (c_rows res') = [1, 3]"
    using overflow_without_cursor v'
    by (cases "users_cursor_handler
                 (example_overflow_cursor\<lparr>cq_cursorCreatedAt := None, cq_cursorId := None\<rparr>)
                 example_users") simp_all
  have second: "\<exists>res. users_cursor_handler example_overflow_cursor example_users = Inr res
      \<and> usedCursor (c_meta res) = Some (''2026-01-02'', Some PosInf)
      \<and> CursorBound \<notin> set (cursor_where example_overflow_cursor)
      \<and> map r_id (c_rows res) = [1, 3]
      \<and> map_sum id c_rows
           (users_cursor_handler
              (example_overflow_cursor\<lparr>cq_cursorCreatedAt := None, cq_cursorId := None\<rparr>)
              example_users)
         = Inr (c_rows res)"
    by (intro exI [of _ res'] conjI)
       (fact r', simp only: u' overflow_cursorId, fact w', fact e', fact v')
  show ?thesis
    by (intro conjI) (fact first, fact second)
qed


section \<open>Properties of the offset endpoint\<close>

lemma where_of_cases:
  "where_of q =
     (if q_status q = None then [] else [StatusEq])
     @ (if trim (q_search q) = [] then [] else [NameOrEmailLike])"
  by (auto simp: where_of_def trim_def)
















section \<open>Properties of the statement texts\<close>

lemma whereSql_of_where_of:
  "whereSql_of (where_of q) =
     (if q_status q = None
      then (if trim (q_search q) = [] then [] else ''WHERE (name LIKE @q OR email LIKE @q)'')
      else (if trim (q_search q) = [] then ''WHERE status = @status''
            else ''WHERE status = @status AND (name LIKE @q OR email LIKE @q)''))"
  by (simp add: where_of_cases whereSql_of_def)

text \<open>
  Claim C9. The text of the prepared statements of the offset endpoint depends only on
  whether a status filter is present, whether the trimmed search is empty, and the
  (field, direction) pair that \<open>parseSort\<close> resolves: two requests that agree on these
  have the same row statement text and the same count statement text, whatever their
  search and status values, pages and page sizes. The \<open>WHERE\<close> clause is one of four
  fixed texts, the sort field is in the allowlist and the direction is \<open>ASC\<close> or
  \<open>DESC\<close>; the status and the search value are passed as the bound parameters
  \<open>@status\<close> and \<open>@q\<close>.
\<close>

theorem sql_text_independent_of_values:
  "((q_status q1 = None \<longleftrightarrow> q_status q2 = None)
      \<and> (trim (q_search q1) = [] \<longleftrightarrow> trim (q_search q2) = [])
      \<and> parseSort (q_sort q1) = parseSort (q_sort q2)
    \<longrightarrow> st_sql (rowsStmt (where_of q1) (sort_field (parseSort (q_sort q1)))
                  (sort_dir (parseSort (q_sort q1))))
        = st_sql (rowsStmt (where_of q2) (sort_field (parseSort (q_sort q2)))
                  (sort_dir (parseSort (q_sort q2))))
      \<and> st_sql (countStmt (where_of q1)) = st_sql (countStmt (where_of q2)))
   \<and> whereSql_of (where_of q1) \<in>
       {[], ''WHERE status = @status'', ''WHERE (name LIKE @q OR email LIKE @q)'',
        ''WHERE status = @status AND (name LIKE @q OR email LIKE @q)''}
   \<and> sort_field (parseSort (q_sort q1)) \<in> set allowed
   \<and> sort_dir (parseSort (q_sort q1)) \<in> {''ASC'', ''DESC''}
   \<and> p_status (params_of q1) = map_option status_text (q_status q1)
   \<and> p_q (params_of q1) =
       (if trim (q_search q1) = [] then None else Some (''%'' @ trim (q_search q1) @ ''%''))"
proof (intro conjI impI)
  assume h: "(q_status q1 = None \<longleftrightarrow> q_status q2 = None)
      \<and> (trim (q_search q1) = [] \<longleftrightarrow> trim (q_search q2) = [])
      \<and> parseSort (q_sort q1) = parseSort (q_sort q2)"
  then have w: "where_of q1 = where_of q2"
    by (simp add: where_of_cases)
  from h show "st_sql (rowsStmt (where_of q1) (sort_field (parseSort (q_sort q1)))
                  (sort_dir (parseSort (q_sort q1))))
        = st_sql (rowsStmt (where_of q2) (sort_field (parseSort (q_sort q2)))
                  (sort_dir (parseSort (q_sort q2))))"
    by (simp add: w)
  show "st_sql (countStmt (where_of q1)) = st_sql (countStmt (where_of q2))"
    by (simp add: w)
next
  show "whereSql_of (where_of q1) \<in>
       {[], ''WHERE status = @status'', ''WHERE (name LIKE @q OR email LIKE @q)'',
        ''WHERE status = @status AND (name LIKE @q OR email LIKE @q)''}"
    by (simp add: whereSql_of_where_of)
next
  show "sort_field (parseSort (q_sort q1)) \<in> set allowed"
    by (simp add: parseSort_def Let_def allowed_def)
next
  show "sort_dir (parseSort (q_sort q1)) \<in> {''ASC'', ''DESC''}"
    by (simp add: parseSort_def Let_def)
next
  show "p_status (params_of q1) = map_option status_text (q_status q1)"
    by (simp add: params_of_def)
next
  show "p_q (params_of q1) =
       (if trim (q_search q1) = [] then None else Some (''%'' @ trim (q_search q1) @ ''%''))"
    by (auto simp: params_of_def trim_def)
qed

theorem sql_text_independent_of_values_witness:
  "st_sql (rowsStmt (where_of example_query) (sort_field (parseSort (q_sort example_query)))
                  (sort_dir (parseSort (q_sort example_query))))
     = st_sql (rowsStmt (where_of example_hostile_query)
                  (sort_field (parseSort (q_sort example_hostile_query)))
                  (sort_dir (parseSort (q_sort example_hostile_query))))
   \<and> st_sql (countStmt (where_of example_query)) = st_sql (countStmt (where_of example_hostile_query))
   \<and> p_q (params_of example_hostile_query)
       = Some (''%x%'' @ [CHR 0x27] @ ''; DROP TABLE users; --%'')"
proof -
  have h: "(q_status example_query = None \<longleftrightarrow> q_status example_hostile_query = None)
      \<and> (trim (q_search example_query) = [] \<longleftrightarrow> trim (q_search example_hostile_query) = [])
      \<and> parseSort (q_sort example_query) = parseSort (q_sort example_hostile_query)"
    by code_simp
  note a = sql_text_independent_of_values [of example_query example_hostile_query,
             THEN conjunct1, THEN mp, OF h]
  have b: "p_q (params_of example_hostile_query)
       = Some (''%x%'' @ [CHR 0x27] @ ''; DROP TABLE users; --%'')"
    by code_simp
  show ?thesis
    by (intro conjI) (fact a [THEN conjunct1], fact a [THEN conjunct2], fact b)
qed

section \<open>Properties of the cache key\<close>

lemma hex_digit_inj: "hex_digit a = hex_digit b \<Longrightarrow> a mod 16 = b mod 16"
proof -
  assume h: "hex_digit a = hex_digit b"
  have d: "distinct ''0123456789abcdef''" by simp
  have l: "a mod 16 < length ''0123456789abcdef''" "b mod 16 < length ''0123456789abcdef''"
    by simp_all
  from h show ?thesis
    unfolding hex_digit_def by (simp only: nth_eq_iff_index_eq [OF d l])
qed

lemma hex_pair_inj:
  assumes "hex_digit (n div 16) = hex_digit (m div 16)" "hex_digit n = hex_digit m"
    and "n < 32" "m < 32"
  shows "n = m"
proof -
  have "n div 16 < 16" "m div 16 < 16" using assms(3,4) by linarith+
  moreover from assms(1) have "(n div 16) mod 16 = (m div 16) mod 16" by (rule hex_digit_inj)
  ultimately have q: "n div 16 = m div 16" by simp
  from assms(2) have r: "n mod 16 = m mod 16" by (rule hex_digit_inj)
  have "n = 16 * (n div 16) + n mod 16" "m = 16 * (m div 16) + m mod 16" by simp_all
  with q r show ?thesis by simp
qed

lemma json_escape_not_quote: "json_escape c \<noteq> [] \<and> hd (json_escape c) \<noteq> CHR 0x22"
  unfolding json_escape_def Let_def by (simp split: if_splits)


lemma json_escape_prefix_code:
  assumes "json_escape c @ x = json_escape d @ y"
  shows "c = d \<and> x = y"
proof -
  define n where "n = (of_char c :: nat)"
  define m where "m = (of_char d :: nat)"
  have cd: "n = m \<Longrightarrow> c = d"
    unfolding n_def m_def by (simp only: of_char_eq_iff)
  have hex: "hex_digit (n div 16) = hex_digit (m div 16) \<Longrightarrow> hex_digit n = hex_digit m
              \<Longrightarrow> n < 32 \<Longrightarrow> m < 32 \<Longrightarrow> c = d"
    using hex_pair_inj cd by blast
  from assms show ?thesis
    unfolding json_escape_def Let_def n_def [symmetric] m_def [symmetric]
    by (simp split: if_splits add: cd hex)
qed

lemma json_body_decodable:
  "concat (map json_escape a) @ CHR 0x22 # r1 = concat (map json_escape b) @ CHR 0x22 # r2
     \<Longrightarrow> a = b \<and> r1 = r2"
proof (induction a arbitrary: b)
  case Nil
  show ?case
  proof (cases b)
    case Nil
    with Nil.prems show ?thesis by simp
  next
    case (Cons d b')
    from json_escape_not_quote [of d] obtain h t where e: "json_escape d = h # t" "h \<noteq> CHR 0x22"
      by (cases "json_escape d") auto
    with Nil.prems Cons show ?thesis by simp
  qed
next
  case (Cons c a')
  show ?case
  proof (cases b)
    case Nil
    from json_escape_not_quote [of c] obtain h t where e: "json_escape c = h # t" "h \<noteq> CHR 0x22"
      by (cases "json_escape c") auto
    with Cons.prems Nil show ?thesis by simp
  next
    case (Cons d b')
    from Cons.prems have
      "json_escape c @ (concat (map json_escape a') @ CHR 0x22 # r1)
         = json_escape d @ (concat (map json_escape b') @ CHR 0x22 # r2)"
      by (simp add: Cons)
    then have "c = d" and
      "concat (map json_escape a') @ CHR 0x22 # r1 = concat (map json_escape b') @ CHR 0x22 # r2"
      using json_escape_prefix_code by blast+
    with Cons.IH [of b'] show ?thesis by (simp add: Cons)
  qed
qed

lemma json_string_decodable:
  "json_string s @ r1 = json_string t @ r2 \<Longrightarrow> s = t \<and> r1 = r2"
  using json_body_decodable [of s r1 t r2] by (simp add: json_string_def)

lemma json_nullable_decodable:
  "json_nullable u @ r1 = json_nullable v @ r2 \<Longrightarrow> u = v \<and> r1 = r2"
proof (cases u; cases v)
  fix s t
  assume "u = Some s" "v = Some t" "json_nullable u @ r1 = json_nullable v @ r2"
  then show ?thesis using json_string_decodable [of s r1 t r2] by (simp add: json_nullable_def)
qed (simp_all add: json_nullable_def json_string_def)

lemma countCacheKey_text:
  "countCacheKey q =
     ''{'' @ json_string ''whereSql'' @ '':'' @
       (json_string (whereSql_of (where_of q)) @
        ('','' @ json_string ''normalized'' @ '':'' @ ''{'' @ json_string ''status'' @ '':'' @
          (json_nullable (n_status (normalized q)) @
           ('','' @ json_string ''search'' @ '':'' @
             (json_nullable (n_search (normalized q)) @ ''}}'')))))"
  by (simp add: countCacheKey_def json_object_def)

lemma where_of_via_normalized:
  "where_of q =
     (if n_status (normalized q) \<noteq> None then [StatusEq] else [])
     @ (if n_search (normalized q) \<noteq> None then [NameOrEmailLike] else [])"
  by (simp add: where_of_def normalized_def)

lemma where_of_normalized:
  "normalized q1 = normalized q2 \<Longrightarrow> where_of q1 = where_of q2"
  by (simp only: where_of_via_normalized)

text \<open>
  Claim C6. The key of the count cache is determined by the normalized filter alone
  (the status or \<open>null\<close>; the trimmed search, \<open>null\<close> when it is empty): two requests
  have the same key exactly when their normalized filters are equal. So requests with the
  same normalized filter and different page, page size or sort string share the key, and
  requests whose normalized filters differ never do.
\<close>

theorem countCacheKey_identifies_filter:
  "(countCacheKey qa = countCacheKey qb) = (normalized qa = normalized qb)
   \<and> countCacheKey (qa\<lparr>q_page := p, q_pageSize := n, q_sort := s\<rparr>) = countCacheKey qa
   \<and> n_status (normalized qa) = map_option status_text (q_status qa)
   \<and> n_search (normalized qa) =
        (if trim (q_search qa) = [] then None else Some (trim (q_search qa)))"
proof (intro conjI)
  show "(countCacheKey qa = countCacheKey qb) = (normalized qa = normalized qb)"
  proof
    assume k: "countCacheKey qa = countCacheKey qb"
    from k have
      "json_string (whereSql_of (where_of qa)) @
        ('','' @ json_string ''normalized'' @ '':'' @ ''{'' @ json_string ''status'' @ '':'' @
          (json_nullable (n_status (normalized qa)) @
           ('','' @ json_string ''search'' @ '':'' @
             (json_nullable (n_search (normalized qa)) @ ''}}''))))
       = json_string (whereSql_of (where_of qb)) @
        ('','' @ json_string ''normalized'' @ '':'' @ ''{'' @ json_string ''status'' @ '':'' @
          (json_nullable (n_status (normalized qb)) @
           ('','' @ json_string ''search'' @ '':'' @
             (json_nullable (n_search (normalized qb)) @ ''}}''))))"
      unfolding countCacheKey_text by (simp only: same_append_eq)
    then have
      "'','' @ json_string ''normalized'' @ '':'' @ ''{'' @ json_string ''status'' @ '':'' @
          (json_nullable (n_status (normalized qa)) @
           ('','' @ json_string ''search'' @ '':'' @
             (json_nullable (n_search (normalized qa)) @ ''}}'')))
       = '','' @ json_string ''normalized'' @ '':'' @ ''{'' @ json_string ''status'' @ '':'' @
          (json_nullable (n_status (normalized qb)) @
           ('','' @ json_string ''search'' @ '':'' @
             (json_nullable (n_search (normalized qb)) @ ''}}'')))"
      by (rule json_string_decodable [THEN conjunct2])
    then have
      "json_nullable (n_status (normalized qa)) @
           ('','' @ json_string ''search'' @ '':'' @
             (json_nullable (n_search (normalized qa)) @ ''}}''))
       = json_nullable (n_status (normalized qb)) @
           ('','' @ json_string ''search'' @ '':'' @
             (json_nullable (n_search (normalized qb)) @ ''}}''))"
      by (simp only: same_append_eq append_assoc)
    then have st: "n_status (normalized qa) = n_status (normalized qb)"
      and "'','' @ json_string ''search'' @ '':'' @
             (json_nullable (n_search (normalized qa)) @ ''}}'')
           = '','' @ json_string ''search'' @ '':'' @
             (json_nullable (n_search (normalized qb)) @ ''}}'')"
      using json_nullable_decodable by blast+
    then have "json_nullable (n_search (normalized qa)) @ ''}}''
             = json_nullable (n_search (normalized qb)) @ ''}}''"
      by (simp only: same_append_eq append_assoc)
    then have se: "n_search (normalized qa) = n_search (normalized qb)"
      using json_nullable_decodable by blast
    from st se show "normalized qa = normalized qb" by simp
  next
    assume n: "normalized qa = normalized qb"
    then show "countCacheKey qa = countCacheKey qb"
      by (simp add: countCacheKey_def where_of_normalized [OF n])
  qed
next
  show "countCacheKey (qa\<lparr>q_page := p, q_pageSize := n, q_sort := s\<rparr>) = countCacheKey qa"
    by (simp add: countCacheKey_def normalized_def where_of_def)
next
  show "n_status (normalized qa) = map_option status_text (q_status qa)"
    by (simp add: normalized_def)
next
  show "n_search (normalized qa) =
        (if trim (q_search qa) = [] then None else Some (trim (q_search qa)))"
    by (auto simp: normalized_def trim_def)
qed

theorem countCacheKey_identifies_filter_witness:
  "countCacheKey (example_query\<lparr>q_page := 3, q_pageSize := 100, q_sort := ''name:desc''\<rparr>)
     = countCacheKey example_query
   \<and> normalized example_query \<noteq> normalized example_hostile_query
   \<and> countCacheKey example_query \<noteq> countCacheKey example_hostile_query"
proof -
  note t = countCacheKey_identifies_filter
             [where qa = example_query and qb = example_hostile_query and p = 3 and n = 100
                and s = "''name:desc''"]
  have d: "normalized example_query \<noteq> normalized example_hostile_query" by code_simp
  from t [THEN conjunct1] d
  have k: "countCacheKey example_query \<noteq> countCacheKey example_hostile_query" by simp
  show ?thesis
    by (intro conjI) (fact t [THEN conjunct2, THEN conjunct1], fact d, fact k)
qed

section \<open>Properties of the client\<close>

lemma fetchData_start_ticket:
  "fst (fetchData_start q s) = Suc (reqIdRef s)"
  "reqIdRef (snd (fetchData_start q s)) = Suc (reqIdRef s)"
  "ui_state (snd (fetchData_start q s)) = ui_state s"
  by (simp_all add: fetchData_start_def Let_def ui_state_def split: option.splits)

lemma fetchData_settle_reqId:
  "reqIdRef (snd (fetchData_settle t out s)) = reqIdRef s"
  by (cases out) (simp_all add: fetchData_settle_def)

lemma foldr_max_base: "foldr max xs (b::nat) = max (foldr max xs 0) b"
  by (induction xs) auto

lemma reqIdRef_run:
  "reqIdRef (run evs s) = foldr max (issued evs s) (reqIdRef s)"
proof (induction evs arbitrary: s)
  case Nil
  show ?case by (simp add: run_def)
next
  case (Cons ev evs)
  show ?case
  proof (cases ev)
    case (Dispatch q)
    have "reqIdRef (run (ev # evs) s) = reqIdRef (run evs (snd (fetchData_start q s)))"
      by (simp add: run_def Dispatch)
    also have "\<dots> = foldr max (issued evs (snd (fetchData_start q s))) (Suc (reqIdRef s))"
      by (simp add: Cons.IH fetchData_start_ticket)
    also have "\<dots> = max (foldr max (issued evs (snd (fetchData_start q s))) 0) (Suc (reqIdRef s))"
      by (rule foldr_max_base)
    also have "\<dots> = foldr max (issued (ev # evs) s) (reqIdRef s)"
      by (simp add: Dispatch fetchData_start_ticket
                    foldr_max_base [of "issued evs (snd (fetchData_start q s))" "reqIdRef s"])
    finally show ?thesis .
  next
    case (Settle t out)
    have "reqIdRef (run (ev # evs) s) = reqIdRef (run evs (snd (fetchData_settle t out s)))"
      by (simp add: run_def Settle)
    then show ?thesis
      by (simp add: Cons.IH Settle fetchData_settle_reqId)
  qed
qed

lemma reqIdRef_is_highest: "reqIdRef (run evs client_init) = highest_issued evs"
  by (simp add: reqIdRef_run highest_issued_def client_init_def)

lemma issued_increasing:
  "sorted_wrt (<) (issued evs s) \<and> (\<forall>t\<in>set (issued evs s). reqIdRef s < t)"
proof (induction evs arbitrary: s)
  case Nil
  show ?case by simp
next
  case (Cons ev evs)
  show ?case
  proof (cases ev)
    case (Dispatch q)
    from Cons.IH [of "snd (fetchData_start q s)"]
    show ?thesis by (auto simp: Dispatch fetchData_start_ticket)
  next
    case (Settle t out)
    from Cons.IH [of "snd (fetchData_settle t out s)"]
    show ?thesis by (simp add: Settle fetchData_settle_reqId)
  qed
qed

text \<open>
  Claim C1. Along every history of \<open>fetchData\<close> calls and settlements, the request counter
  is the highest request number handed out so far, and the numbers are handed out in
  strictly increasing order. A response that arrives for request number \<open>t\<close> is written to
  the state the user sees (\<open>rows\<close>, \<open>totalCount\<close>, \<open>request\<close>, \<open>meta\<close>) when \<open>t\<close> is that
  highest number, and otherwise leaves the whole state as it was. In particular, when
  requests 1, 2, 3 are issued and their responses arrive in the order 3, 1, 2, the state
  shows the response of request 3, and the responses of 1 and 2 change nothing.
\<close>

theorem response_applied_iff_latest:
  "reqIdRef (run evs client_init) = highest_issued evs
   \<and> sorted_wrt (<) (issued evs client_init)
   \<and> (t = highest_issued evs \<longrightarrow>
        ui_state (snd (fetchData_settle t (Fulfilled json elapsed) (run evs client_init)))
          = (rows json, totalCount json, Some (request json), Some (meta json)))
   \<and> (t \<noteq> highest_issued evs \<longrightarrow>
        fetchData_settle t (Fulfilled json elapsed) (run evs client_init)
          = (Inr (), run evs client_init))
   \<and> issued [Dispatch q1, Dispatch q2, Dispatch q3,
              Settle 3 (Fulfilled j3 e3), Settle 1 (Fulfilled j1 e1), Settle 2 (Fulfilled j2 e2)]
             client_init = [1, 2, 3]
   \<and> ui_state (run [Dispatch q1, Dispatch q2, Dispatch q3,
                     Settle 3 (Fulfilled j3 e3), Settle 1 (Fulfilled j1 e1),
                     Settle 2 (Fulfilled j2 e2)] client_init)
        = (rows j3, totalCount j3, Some (request j3), Some (meta j3))
   \<and> run [Dispatch q1, Dispatch q2, Dispatch q3,
           Settle 3 (Fulfilled j3 e3), Settle 1 (Fulfilled j1 e1), Settle 2 (Fulfilled j2 e2)]
          client_init
        = run [Dispatch q1, Dispatch q2, Dispatch q3, Settle 3 (Fulfilled j3 e3)] client_init"
proof (intro conjI impI)
  show "reqIdRef (run evs client_init) = highest_issued evs" by (rule reqIdRef_is_highest)
  show "sorted_wrt (<) (issued evs client_init)"
    using issued_increasing [of evs client_init] by simp
next
  assume "t = highest_issued evs"
  then have "t = reqIdRef (run evs client_init)" by (simp add: reqIdRef_is_highest)
  then show "ui_state (snd (fetchData_settle t (Fulfilled json elapsed) (run evs client_init)))
          = (rows json, totalCount json, Some (request json), Some (meta json))"
    by (simp add: fetchData_settle_def ui_state_def)
next
  assume "t \<noteq> highest_issued evs"
  then have "t \<noteq> reqIdRef (run evs client_init)" by (simp add: reqIdRef_is_highest)
  then show "fetchData_settle t (Fulfilled json elapsed) (run evs client_init)
          = (Inr (), run evs client_init)"
    by (simp add: fetchData_settle_def)
next
  show "issued [Dispatch q1, Dispatch q2, Dispatch q3,
              Settle 3 (Fulfilled j3 e3), Settle 1 (Fulfilled j1 e1), Settle 2 (Fulfilled j2 e2)]
             client_init = [1, 2, 3]"
    by (simp add: fetchData_start_ticket fetchData_settle_reqId client_init_def)
next
  have r3: "reqIdRef (run [Dispatch q1, Dispatch q2, Dispatch q3] client_init) = 3"
    by (simp add: run_def fetchData_start_ticket client_init_def)
  have split4: "run [Dispatch q1, Dispatch q2, Dispatch q3, Settle 3 (Fulfilled j3 e3)] client_init
      = snd (fetchData_settle 3 (Fulfilled j3 e3) (run [Dispatch q1, Dispatch q2, Dispatch q3] client_init))"
    by (simp add: run_def)
  have r4: "reqIdRef (run [Dispatch q1, Dispatch q2, Dispatch q3, Settle 3 (Fulfilled j3 e3)] client_init) = 3"
    by (simp only: split4 fetchData_settle_reqId r3)
  have u4: "ui_state (run [Dispatch q1, Dispatch q2, Dispatch q3, Settle 3 (Fulfilled j3 e3)] client_init)
        = (rows j3, totalCount j3, Some (request j3), Some (meta j3))"
    unfolding split4 using r3 by (simp add: fetchData_settle_def ui_state_def)
  have split6: "run [Dispatch q1, Dispatch q2, Dispatch q3,
           Settle 3 (Fulfilled j3 e3), Settle 1 (Fulfilled j1 e1), Settle 2 (Fulfilled j2 e2)]
          client_init
      = snd (fetchData_settle 2 (Fulfilled j2 e2)
          (snd (fetchData_settle 1 (Fulfilled j1 e1)
             (run [Dispatch q1, Dispatch q2, Dispatch q3, Settle 3 (Fulfilled j3 e3)] client_init))))"
    by (simp add: run_def)
  show same: "run [Dispatch q1, Dispatch q2, Dispatch q3,
           Settle 3 (Fulfilled j3 e3), Settle 1 (Fulfilled j1 e1), Settle 2 (Fulfilled j2 e2)]
          client_init
        = run [Dispatch q1, Dispatch q2, Dispatch q3, Settle 3 (Fulfilled j3 e3)] client_init"
    unfolding split6 using r4 by (simp add: fetchData_settle_def)
  show "ui_state (run [Dispatch q1, Dispatch q2, Dispatch q3,
                     Settle 3 (Fulfilled j3 e3), Settle 1 (Fulfilled j1 e1),
                     Settle 2 (Fulfilled j2 e2)] client_init)
        = (rows j3, totalCount j3, Some (request j3), Some (meta j3))"
    by (simp only: same u4)
qed

theorem response_applied_iff_latest_witness:
  "highest_issued [Dispatch example_qs, Dispatch example_qs] = 2
   \<and> ui_state (snd (fetchData_settle 2 (Fulfilled (example_res 2) ''12.5'')
                      (run [Dispatch example_qs, Dispatch example_qs] client_init)))
        = (rows (example_res 2), totalCount (example_res 2), Some (request (example_res 2)),
           Some (meta (example_res 2)))
   \<and> fetchData_settle 1 (Fulfilled (example_res 1) ''40.0'')
        (run [Dispatch example_qs, Dispatch example_qs] client_init)
        = (Inr (), run [Dispatch example_qs, Dispatch example_qs] client_init)"
proof -
  have h: "highest_issued [Dispatch example_qs, Dispatch example_qs] = 2"
    by (simp add: highest_issued_def fetchData_start_def Let_def client_init_def)
  have h2: "(2::nat) = highest_issued [Dispatch example_qs, Dispatch example_qs]"
    by (simp only: h)
  have h1: "(1::nat) \<noteq> highest_issued [Dispatch example_qs, Dispatch example_qs]"
    by (simp add: h)
  note a = response_applied_iff_latest
             [where evs = "[Dispatch example_qs, Dispatch example_qs]" and t = 2
                and json = "example_res 2" and elapsed = "''12.5''",
              THEN conjunct2, THEN conjunct2, THEN conjunct1, THEN mp, OF h2]
  note b = response_applied_iff_latest
             [where evs = "[Dispatch example_qs, Dispatch example_qs]" and t = 1
                and json = "example_res 1" and elapsed = "''40.0''",
              THEN conjunct2, THEN conjunct2, THEN conjunct2, THEN conjunct1, THEN mp, OF h1]
  show ?thesis
    by (intro conjI) (fact h, fact a, fact b)
qed

text \<open>
  Claim C2, as stated, fails: request 1 is the current request, it was not cancelled, its
  network call fails with a \<open>TypeError\<close>, and the promise of \<open>fetchData\<close> is fulfilled; it
  is not rejected with the failure.
\<close>

theorem failure_of_current_ticket_not_surfaced:
  "fst (fetchData_start example_qs client_init) = 1
   \<and> reqIdRef (snd (fetchData_start example_qs client_init)) = 1
   \<and> 1 \<notin> set (aborted (snd (fetchData_start example_qs client_init)))
   \<and> t_name example_failure \<noteq> Some ''AbortError''
   \<and> fst (fetchData_settle 1 (Rejected example_failure) (snd (fetchData_start example_qs client_init)))
       = Inr ()
   \<and> fst (fetchData_settle 1 (Rejected example_failure) (snd (fetchData_start example_qs client_init)))
       \<noteq> Inl example_failure"
  by (simp add: fetchData_start_def fetchData_settle_def Let_def client_init_def example_failure_def)

text \<open>
  Claim C2, amended. When the network call of a request fails, \<open>fetchData\<close> catches the
  failure and completes normally: nothing is propagated to its caller and the state the
  user sees is unchanged, whether or not the request is the current one. A failure whose
  name is not \<open>AbortError\<close> is reported with \<open>console.error\<close>; only an \<open>AbortError\<close> is
  swallowed silently, leaving the whole state as it was.
\<close>

theorem failure_logged_not_propagated:
  "fst (fetchData_settle t (Rejected e) s) = Inr ()
   \<and> ui_state (snd (fetchData_settle t (Rejected e) s)) = ui_state s
   \<and> (t_name e \<noteq> Some ''AbortError'' \<longrightarrow>
        snd (fetchData_settle t (Rejected e) s) = s\<lparr>console := console s @ [ConsoleError e]\<rparr>)
   \<and> (t_name e = Some ''AbortError'' \<longrightarrow> snd (fetchData_settle t (Rejected e) s) = s)"
  by (simp add: fetchData_settle_def ui_state_def)

theorem failure_logged_not_propagated_witness:
  "t_name example_failure \<noteq> Some ''AbortError''
   \<and> snd (fetchData_settle 1 (Rejected example_failure) (snd (fetchData_start example_qs client_init)))
       = (snd (fetchData_start example_qs client_init))
           \<lparr>console := console (snd (fetchData_start example_qs client_init))
                          @ [ConsoleError example_failure]\<rparr>
   \<and> snd (fetchData_settle 1 (Rejected \<lparr>t_name = Some ''AbortError''\<rparr>)
            (snd (fetchData_start example_qs client_init)))
       = snd (fetchData_start example_qs client_init)"
proof -
  have h: "t_name example_failure \<noteq> Some ''AbortError''"
    by (simp add: example_failure_def)
  have k: "t_name \<lparr>t_name = Some ''AbortError''\<rparr> = Some ''AbortError''" by simp
  note a = failure_logged_not_propagated
             [where t = 1 and e = example_failure
                and s = "snd (fetchData_start example_qs client_init)",
              THEN conjunct2, THEN conjunct2, THEN conjunct1, THEN mp, OF h]
  note b = failure_logged_not_propagated
             [where t = 1 and e = "\<lparr>t_name = Some ''AbortError''\<rparr>"
                and s = "snd (fetchData_start example_qs client_init)",
              THEN conjunct2, THEN conjunct2, THEN conjunct2, THEN mp, OF k]
  show ?thesis
    by (intro conjI) (fact h, fact a, fact b)
qed

end
